theory Spec2Isabelle
  imports Main
begin

section \<open>The cron utilities of \<open>cron-expression-builder.tsx\<close>\<close>

text \<open>
  The three functions of the object \<open>cronUtils\<close> (\<open>parseExpression\<close>,
  \<open>generateExpression\<close>, \<open>humanReadable\<close>) are pure functions on strings and
  on the interface \<open>CronConfig\<close>. They are embedded here together with the
  JavaScript built-ins they call.

  Conventions of the embedding:
  \<^item> a JavaScript string is a \<open>string\<close>; one \<open>char\<close> stands for one UTF-16 code
    unit below 256;
  \<^item> a JavaScript number is \<open>NaN\<close>, an infinity, or \<open>Num n\<close> for an integer \<open>n\<close>
    that a double holds. These are the numbers that \<open>parseInt\<close> returns: an integer
    beyond \<open>2^53\<close> is rounded to the nearest double and one beyond the largest double
    is an infinity. Negative zero prints, compares and indexes as zero in the three
    functions and is \<open>Num 0\<close>. Fractions cannot come out of \<open>parseInt\<close> and are not
    represented; a \<open>Num n\<close> that a caller passes with \<open>n\<close> not a double is printed as
    the double nearest to it;
  \<^item> \<open>undefined\<close> and \<open>null\<close> are \<open>None\<close>.
\<close>

subsection \<open>JavaScript values and built-ins\<close>

datatype jsnum = NaN | Num int | PosInfinity | NegInfinity

text \<open>\<open>String.prototype.split\<close> with a separator of one code unit: every occurrence
  cuts, empty pieces are kept, and the empty string gives one empty piece.\<close>

fun js_split :: "char \<Rightarrow> string \<Rightarrow> string list" where
  "js_split sep [] = [[]]"
| "js_split sep (c # cs) =
     (if c = sep then [] # js_split sep cs
      else (case js_split sep cs of
              [] \<Rightarrow> [[c]]
            | w # ws \<Rightarrow> (c # w) # ws))"

text \<open>\<open>Array.prototype.join\<close> on elements that are already strings.\<close>

fun js_join :: "string \<Rightarrow> string list \<Rightarrow> string" where
  "js_join sep [] = []"
| "js_join sep [x] = x"
| "js_join sep (x # y # ys) = x @ sep @ js_join sep (y # ys)"

text \<open>\<open>join\<close> renders an element that is \<open>undefined\<close> as the empty string.\<close>

definition join_elem :: "string option \<Rightarrow> string" where
  "join_elem e = (case e of None \<Rightarrow> [] | Some s \<Rightarrow> s)"

text \<open>\<open>String.prototype.padStart\<close> with a fill string of one code unit.\<close>

definition padStart :: "nat \<Rightarrow> char \<Rightarrow> string \<Rightarrow> string" where
  "padStart n fill s = replicate (n - length s) fill @ s"

text \<open>The white space that \<open>parseInt\<close> skips at the start of its argument
  (TAB, LF, VT, FF, CR, SP, NBSP).\<close>

definition is_ws :: "char \<Rightarrow> bool" where
  "is_ws c = ((of_char c :: nat) \<in> {9, 10, 11, 12, 13, 32, 160})"

text \<open>The value of a code unit as a digit of radix \<open>r\<close>, if it is one.\<close>

definition radix_digit :: "nat \<Rightarrow> char \<Rightarrow> nat option" where
  "radix_digit r c =
     (let k = (of_char c :: nat);
          v = (if 48 \<le> k \<and> k \<le> 57 then Some (k - 48)
               else if 97 \<le> k \<and> k \<le> 122 then Some (k - 87)
               else if 65 \<le> k \<and> k \<le> 90 then Some (k - 55)
               else None)
      in case v of
           None \<Rightarrow> None
         | Some d \<Rightarrow> if d < r then Some d else None)"

definition digits_value :: "nat \<Rightarrow> string \<Rightarrow> nat" where
  "digits_value r z = foldl (\<lambda>a c. a * r + (case radix_digit r c of None \<Rightarrow> 0 | Some d \<Rightarrow> d)) 0 z"

text \<open>The Number value of a non-negative integer \<open>m\<close>: the nearest double, ties to the
  even significand of 53 bits; \<open>None\<close> when it is beyond the largest double (the
  Number is then an infinity). An integer of at most 53 bits, that is below \<open>2^53\<close>, is
  a double.\<close>

fun bit_length :: "nat \<Rightarrow> nat" where
  "bit_length n = (if n = 0 then 0 else Suc (bit_length (n div 2)))"

declare bit_length.simps [simp del]

definition to_double :: "nat \<Rightarrow> nat option" where
  "to_double m =
     (if bit_length m \<le> 53 then Some m
      else (let e = bit_length m - 53;
                q = m div 2 ^ e;
                r = m mod 2 ^ e;
                h = 2 ^ (e - 1);
                q' = (if h < r \<or> (r = h \<and> odd q) then q + 1 else q);
                v = q' * 2 ^ e
            in if 2 ^ 1024 \<le> v then None else Some v))"

definition js_number :: "bool \<Rightarrow> nat \<Rightarrow> jsnum" where
  "js_number neg m =
     (case to_double m of
        None \<Rightarrow> if neg then NegInfinity else PosInfinity
      | Some v \<Rightarrow> Num (if neg then - int v else int v))"

text \<open>\<open>parseInt(s)\<close> with no radix argument: leading white space is skipped, a sign is
  read, a prefix \<open>0x\<close> or \<open>0X\<close> selects radix 16, and the longest prefix of digits is
  read as an integer, whose Number value is the result; with no digit the result is
  \<open>NaN\<close>.\<close>

definition is_negative :: "string \<Rightarrow> bool" where
  "is_negative s = (case s of [] \<Rightarrow> False | c # _ \<Rightarrow> c = CHR ''-'')"

definition strip_sign :: "string \<Rightarrow> string" where
  "strip_sign s = (case s of [] \<Rightarrow> [] | c # cs \<Rightarrow> if c = CHR ''+'' \<or> c = CHR ''-'' then cs else s)"

definition hex_prefix :: "string \<Rightarrow> bool" where
  "hex_prefix s =
     (case s of
        c # x # _ \<Rightarrow> c = CHR ''0'' \<and> (x = CHR ''x'' \<or> x = CHR ''X'')
      | _ \<Rightarrow> False)"

definition js_parseInt :: "string \<Rightarrow> jsnum" where
  "js_parseInt s =
     (let s1 = dropWhile is_ws s;
          s2 = strip_sign s1;
          r = (if hex_prefix s2 then 16 else 10);
          s3 = (if hex_prefix s2 then drop 2 s2 else s2);
          z = takeWhile (\<lambda>c. radix_digit r c \<noteq> None) s3
      in if z = [] then NaN
         else js_number (is_negative s1) (digits_value r z))"

text \<open>\<open>Number::toString\<close> in radix 10. An integer of at most 53 bits is printed digit
  by digit. A larger double \<open>x\<close> is printed from the integer \<open>v\<close> with the fewest
  significant digits whose Number value is \<open>x\<close> (the nearest to \<open>x\<close> when two have as
  few, the even one on a tie): as the digits of \<open>v\<close> when they are at most 21, and in
  exponent form otherwise.\<close>

fun show_nat :: "nat \<Rightarrow> string" where
  "show_nat n = (if n < 10 then [char_of (48 + n)] else show_nat (n div 10) @ [char_of (48 + n mod 10)])"

declare show_nat.simps [simp del]

fun shortest_at :: "nat \<Rightarrow> nat \<Rightarrow> nat" where
  "shortest_at x 0 = x"
| "shortest_at x (Suc e) =
     (let p = 10 ^ Suc e;
          lo = (x div p) * p;
          hi = lo + p;
          l = (to_double lo = Some x);
          h = (to_double hi = Some x)
      in if l \<and> h then (if x - lo < hi - x then lo
                         else if hi - x < x - lo then hi
                         else if even (x div p) then lo else hi)
         else if l then lo
         else if h then hi
         else shortest_at x e)"

definition strip_zeros :: "string \<Rightarrow> string" where
  "strip_zeros s = rev (dropWhile (\<lambda>c. c = CHR ''0'') (rev s))"

definition show_double :: "nat \<Rightarrow> string" where
  "show_double x =
     (let v = shortest_at x (length (show_nat x) - 1);
          ds = show_nat v;
          n = length ds;
          s = strip_zeros ds
      in if n \<le> 21 then ds
         else if length s = 1 then s @ ''e+'' @ show_nat (n - 1)
         else hd s # CHR ''.'' # tl s @ ''e+'' @ show_nat (n - 1))"

definition show_magnitude :: "nat \<Rightarrow> string" where
  "show_magnitude m =
     (if bit_length m \<le> 53 then show_nat m
      else (case to_double m of None \<Rightarrow> ''Infinity'' | Some x \<Rightarrow> show_double x))"

definition js_toString :: "jsnum \<Rightarrow> string" where
  "js_toString x =
     (case x of
        NaN \<Rightarrow> ''NaN''
      | PosInfinity \<Rightarrow> ''Infinity''
      | NegInfinity \<Rightarrow> ''-Infinity''
      | Num n \<Rightarrow> if n < 0 then CHR ''-'' # show_magnitude (nat (- n)) else show_magnitude (nat n))"

text \<open>A template literal \<open>`${v}`\<close> renders \<open>undefined\<close> as the word.\<close>

definition tmpl_str :: "string option \<Rightarrow> string" where
  "tmpl_str v = (case v of None \<Rightarrow> ''undefined'' | Some s \<Rightarrow> s)"

definition tmpl_num :: "jsnum option \<Rightarrow> string" where
  "tmpl_num v = (case v of None \<Rightarrow> ''undefined'' | Some x \<Rightarrow> js_toString x)"

text \<open>\<open>a || b\<close>: the empty string, \<open>0\<close>, \<open>NaN\<close> and \<open>undefined\<close> are falsy; every
  other number and every array is truthy.\<close>

definition js_or_str :: "string option \<Rightarrow> string \<Rightarrow> string" where
  "js_or_str a b = (case a of None \<Rightarrow> b | Some s \<Rightarrow> if s = [] then b else s)"

definition js_or_num :: "jsnum option \<Rightarrow> jsnum \<Rightarrow> jsnum" where
  "js_or_num a b = (case a of None \<Rightarrow> b | Some x \<Rightarrow> if x = NaN \<or> x = Num 0 then b else x)"

definition js_or_array :: "'a list option \<Rightarrow> 'a list \<Rightarrow> 'a list" where
  "js_or_array a b = (case a of None \<Rightarrow> b | Some xs \<Rightarrow> xs)"

text \<open>Reading position \<open>i\<close> of an array in a destructuring pattern: \<open>undefined\<close> past
  the end.\<close>

definition elem_at :: "'a list \<Rightarrow> nat \<Rightarrow> 'a option" where
  "elem_at xs i = (if i < length xs then Some (xs ! i) else None)"

text \<open>\<open>arr[d]\<close> for a number \<open>d\<close>: an element for an integer index inside the array,
  \<open>undefined\<close> for every other number.\<close>

definition index_num :: "'a list \<Rightarrow> jsnum \<Rightarrow> 'a option" where
  "index_num xs d =
     (case d of
        Num n \<Rightarrow> if 0 \<le> n \<and> n < int (length xs) then Some (xs ! nat n) else None
      | _ \<Rightarrow> None)"

subsection \<open>The configuration\<close>

text \<open>The interface \<open>CronConfig\<close>. The field \<open>type\<close> is a string at run time (the
  component casts the value of a toggle button to it), so it is one here.\<close>

record CronConfig =
  type :: string
  time :: "string option"
  days :: "jsnum list option"
  day :: "jsnum option"
  expression :: "string option"

subsection \<open>\<open>cronUtils.parseExpression\<close>\<close>

text \<open>The template \<open>`${hour.padStart(2, '0')}:${minute.padStart(2, '0')}`\<close>, which
  rules 2, 3 and 4 share.\<close>

definition hhmm :: "string \<Rightarrow> string \<Rightarrow> string" where
  "hhmm hour minute = padStart 2 (CHR ''0'') hour @ '':'' @ padStart 2 (CHR ''0'') minute"

definition parseExpression :: "string \<Rightarrow> CronConfig option" where
  "parseExpression cron =
     (let parts = js_split (CHR '' '') cron in
      if length parts \<noteq> 5 then None
      else (case parts of
        [minute, hour, day', month, weekday] \<Rightarrow>
          if minute = ''0'' \<and> hour = ''0'' \<and> day' = ''*'' \<and> month = ''*'' \<and> weekday = ''*''
          then Some \<lparr>type = ''daily'', time = Some ''00:00'', days = None, day = None,
                     expression = None\<rparr>
          else if minute \<noteq> ''*'' \<and> hour \<noteq> ''*'' \<and> day' = ''*'' \<and> month = ''*'' \<and> weekday = ''*''
          then Some \<lparr>type = ''daily'', time = Some (hhmm hour minute), days = None, day = None,
                     expression = None\<rparr>
          else if minute \<noteq> ''*'' \<and> hour \<noteq> ''*'' \<and> day' = ''*'' \<and> month = ''*'' \<and> weekday \<noteq> ''*''
          then Some \<lparr>type = ''weekly'', time = Some (hhmm hour minute),
                     days = Some (map js_parseInt (js_split (CHR '','') weekday)), day = None,
                     expression = None\<rparr>
          else if minute \<noteq> ''*'' \<and> hour \<noteq> ''*'' \<and> day' \<noteq> ''*'' \<and> month = ''*'' \<and> weekday = ''*''
          then Some \<lparr>type = ''monthly'', time = Some (hhmm hour minute), days = None,
                     day = Some (js_parseInt day'), expression = None\<rparr>
          else Some \<lparr>type = ''custom'', time = None, days = None, day = None,
                     expression = Some cron\<rparr>
      | _ \<Rightarrow> None))"

subsection \<open>\<open>cronUtils.generateExpression\<close>\<close>

text \<open>The array \<open>(time || '00:00').split(':').map(t => parseInt(t))\<close> that the
  function destructures into \<open>[hour, minute]\<close>.\<close>

definition time_parts :: "CronConfig \<Rightarrow> jsnum list" where
  "time_parts config = map js_parseInt (js_split (CHR '':'') (js_or_str (time config) ''00:00''))"

definition generateExpression :: "CronConfig \<Rightarrow> string" where
  "generateExpression config =
     (let hour = elem_at (time_parts config) 0;
          minute = elem_at (time_parts config) 1
      in if type config = ''daily''
         then tmpl_num minute @ '' '' @ tmpl_num hour @ '' * * *''
         else if type config = ''weekly''
         then (let daysList = js_join '','' (map js_toString (js_or_array (days config) []))
               in tmpl_num minute @ '' '' @ tmpl_num hour @ '' * * '' @ daysList)
         else if type config = ''monthly''
         then tmpl_num minute @ '' '' @ tmpl_num hour @ '' ''
                @ js_toString (js_or_num (day config) (Num 1)) @ '' * *''
         else if type config = ''custom''
         then js_or_str (expression config) ''0 0 * * *''
         else ''0 0 * * *'')"

subsection \<open>\<open>cronUtils.humanReadable\<close>\<close>

text \<open>The local array \<open>dayNames\<close> and the chained conditional that gives the local
  \<open>suffix\<close> from \<open>config.day\<close> by strict equality.\<close>

definition dayNames :: "string list" where
  "dayNames = [''Sunday'', ''Monday'', ''Tuesday'', ''Wednesday'', ''Thursday'', ''Friday'',
               ''Saturday'']"

definition suffix :: "jsnum option \<Rightarrow> string" where
  "suffix d = (if d = Some (Num 1) then ''st''
               else if d = Some (Num 2) then ''nd''
               else if d = Some (Num 3) then ''rd''
               else ''th'')"

definition humanReadable :: "string \<Rightarrow> string" where
  "humanReadable cron =
     (case parseExpression cron of
        None \<Rightarrow> ''Invalid cron expression''
      | Some config \<Rightarrow>
          if type config = ''daily''
          then ''Daily at '' @ tmpl_str (time config)
          else if type config = ''weekly''
          then (let daysList =
                      js_join '', '' (map (\<lambda>d. join_elem (index_num dayNames d))
                                           (js_or_array (days config) []))
                in ''Weekly on '' @ daysList @ '' at '' @ tmpl_str (time config))
          else if type config = ''monthly''
          then ''Monthly on the '' @ tmpl_num (day config) @ suffix (day config) @ '' at ''
                 @ tmpl_str (time config)
          else if type config = ''custom''
          then ''Custom: '' @ tmpl_str (expression config)
          else ''Invalid schedule'')"


subsection \<open>Notions of the specification\<close>

text \<open>The parser with its first rule (the input \<open>0 0 * * *\<close>) removed: the variant that
  the specification allows an implementer to write.\<close>

definition parseExpression_merged :: "string \<Rightarrow> CronConfig option" where
  "parseExpression_merged cron =
     (let parts = js_split (CHR '' '') cron in
      if length parts \<noteq> 5 then None
      else (case parts of
        [minute, hour, day', month, weekday] \<Rightarrow>
          if minute \<noteq> ''*'' \<and> hour \<noteq> ''*'' \<and> day' = ''*'' \<and> month = ''*'' \<and> weekday = ''*''
          then Some \<lparr>type = ''daily'', time = Some (hhmm hour minute), days = None, day = None,
                     expression = None\<rparr>
          else if minute \<noteq> ''*'' \<and> hour \<noteq> ''*'' \<and> day' = ''*'' \<and> month = ''*'' \<and> weekday \<noteq> ''*''
          then Some \<lparr>type = ''weekly'', time = Some (hhmm hour minute),
                     days = Some (map js_parseInt (js_split (CHR '','') weekday)), day = None,
                     expression = None\<rparr>
          else if minute \<noteq> ''*'' \<and> hour \<noteq> ''*'' \<and> day' \<noteq> ''*'' \<and> month = ''*'' \<and> weekday = ''*''
          then Some \<lparr>type = ''monthly'', time = Some (hhmm hour minute), days = None,
                     day = Some (js_parseInt day'), expression = None\<rparr>
          else Some \<lparr>type = ''custom'', time = None, days = None, day = None,
                     expression = Some cron\<rparr>
      | _ \<Rightarrow> None))"

text \<open>The fields of a string in the specification's words, "whitespace-separated": the
  maximal runs of code units that are not white space.\<close>

fun ws_fields :: "string \<Rightarrow> string list" where
  "ws_fields [] = []"
| "ws_fields (c # cs) =
     (if is_ws c then ws_fields cs
      else (case cs of
              [] \<Rightarrow> [[c]]
            | d # _ \<Rightarrow> if is_ws d then [c] # ws_fields cs
                       else (case ws_fields cs of [] \<Rightarrow> [[c]] | w # ws \<Rightarrow> (c # w) # ws)))"

text \<open>Decimal digits and the number a string of them denotes.\<close>

definition is_digit :: "char \<Rightarrow> bool" where
  "is_digit c = (48 \<le> (of_char c :: nat) \<and> (of_char c :: nat) \<le> 57)"

definition digit_of :: "char \<Rightarrow> nat" where
  "digit_of c = of_char c - 48"

definition decimal :: "string \<Rightarrow> nat" where
  "decimal t = foldl (\<lambda>a c. 10 * a + digit_of c) 0 t"

text \<open>A valid \<open>time\<close>: \<open>HH:MM\<close>, two digits each, the hour at most 23 and the minute at
  most 59.\<close>

definition valid_time :: "string \<Rightarrow> bool" where
  "valid_time t =
     (case t of
        [a, b, c, d, e] \<Rightarrow>
          is_digit a \<and> is_digit b \<and> c = CHR '':'' \<and> is_digit d \<and> is_digit e
          \<and> 10 * digit_of a + digit_of b \<le> 23 \<and> 10 * digit_of d + digit_of e \<le> 59
      | _ \<Rightarrow> False)"

text \<open>A numeric token: one or more decimal digits.\<close>

definition numeric_token :: "string \<Rightarrow> bool" where
  "numeric_token t = (t \<noteq> [] \<and> list_all is_digit t)"

text \<open>A weekday entry in \<open>[0,6]\<close>.\<close>

definition weekday_in_range :: "jsnum \<Rightarrow> bool" where
  "weekday_in_range d = (case d of Num n \<Rightarrow> 0 \<le> n \<and> n \<le> 6 | _ \<Rightarrow> False)"

section \<open>Properties\<close>

subsection \<open>Splitting, digits and \<open>parseInt\<close>\<close>

lemma js_split_ne: "js_split sep s \<noteq> []"
  by (induction s) (auto split: list.splits)

lemma js_split_nosep: "sep \<notin> set s \<Longrightarrow> js_split sep s = [s]"
  by (induction s) auto

lemma js_split_app: "sep \<notin> set a \<Longrightarrow> js_split sep (a @ sep # b) = a # js_split sep b"
  by (induction a) auto

lemma js_split_join:
  "xs \<noteq> [] \<Longrightarrow> \<forall>x\<in>set xs. sep \<notin> set x \<Longrightarrow> js_split sep (js_join [sep] xs) = xs"
proof (induction "[sep]" xs rule: js_join.induct)
  case 1
  then show ?case by simp
next
  case (2 x)
  then show ?case by (simp add: js_split_nosep)
next
  case (3 x y ys)
  then show ?case by (simp add: js_split_app)
qed

lemma is_digit_char: "(n::nat) < 10 \<Longrightarrow> is_digit (char_of (48 + n))"
  by (simp add: is_digit_def)

lemma digit_of_char: "(n::nat) < 10 \<Longrightarrow> digit_of (char_of (48 + n)) = n"
  by (simp add: digit_of_def)

lemma char_of_digit: "is_digit c \<Longrightarrow> char_of (48 + digit_of c) = c"
  by (simp add: is_digit_def digit_of_def)

lemma show_nat_digits: "list_all is_digit (show_nat n)"
proof (induction n rule: show_nat.induct)
  case (1 n)
  show ?case
  proof (cases "n < 10")
    case True
    then show ?thesis by (subst show_nat.simps) (simp add: is_digit_char)
  next
    case False
    with 1 show ?thesis by (subst show_nat.simps) (simp add: is_digit_char)
  qed
qed

lemma show_nat_ne: "show_nat n \<noteq> []"
  by (subst show_nat.simps) simp

lemma decimal_snoc: "decimal (t @ [c]) = 10 * decimal t + digit_of c"
  by (simp add: decimal_def)

lemma decimal_show_nat: "decimal (show_nat n) = n"
proof (induction n rule: show_nat.induct)
  case (1 n)
  show ?case
  proof (cases "n < 10")
    case True
    then show ?thesis by (subst show_nat.simps) (simp add: decimal_def digit_of_char)
  next
    case False
    with 1 show ?thesis by (subst show_nat.simps) (simp add: decimal_snoc digit_of_char)
  qed
qed

lemma radix_digit_10: "is_digit c \<Longrightarrow> radix_digit 10 c = Some (digit_of c)"
  by (auto simp add: radix_digit_def is_digit_def digit_of_def Let_def)

lemma digits_value_decimal_aux:
  "list_all is_digit t \<Longrightarrow>
   foldl (\<lambda>a c. a * 10 + (case radix_digit 10 c of None \<Rightarrow> 0 | Some d \<Rightarrow> d)) k t
   = foldl (\<lambda>a c. 10 * a + digit_of c) k t"
  by (induction t arbitrary: k) (simp_all add: radix_digit_10 mult.commute)

lemma digits_value_decimal: "list_all is_digit t \<Longrightarrow> digits_value 10 t = decimal t"
  by (simp add: digits_value_def decimal_def digits_value_decimal_aux)

lemma is_digit_not_ws: "is_digit c \<Longrightarrow> \<not> is_ws c"
  by (auto simp add: is_digit_def is_ws_def)

lemma is_digit_neq:
  "is_digit c \<Longrightarrow> c \<noteq> CHR ''+'' \<and> c \<noteq> CHR ''-'' \<and> c \<noteq> CHR ''x'' \<and> c \<noteq> CHR ''X''
     \<and> c \<noteq> CHR '' '' \<and> c \<noteq> CHR '','' \<and> c \<noteq> CHR '':'' \<and> c \<noteq> CHR ''*''"
  by (auto simp add: is_digit_def)

lemma takeWhile_digits:
  "list_all is_digit t \<Longrightarrow> takeWhile (\<lambda>c. radix_digit 10 c \<noteq> None) t = t"
  by (induction t) (simp_all add: radix_digit_10)

lemma sign_digit: "is_digit c \<Longrightarrow> strip_sign (c # cs) = c # cs \<and> \<not> is_negative (c # cs)"
  using is_digit_neq [of c] by (simp add: strip_sign_def is_negative_def)

lemma hex_prefix_digits: "list_all is_digit t \<Longrightarrow> \<not> hex_prefix t"
proof (cases t)
  case Nil
  then show ?thesis by (simp add: hex_prefix_def)
next
  case (Cons c cs)
  assume d: "list_all is_digit t"
  show ?thesis
  proof (cases cs)
    case Nil
    with Cons show ?thesis by (simp add: hex_prefix_def)
  next
    case (Cons x xs)
    with d \<open>t = c # cs\<close> have "is_digit x" by simp
    then show ?thesis using is_digit_neq [of x] by (simp add: hex_prefix_def Cons \<open>t = c # cs\<close>)
  qed
qed

lemma js_parseInt_digits:
  assumes "t \<noteq> []" and "list_all is_digit t"
  shows "js_parseInt t = js_number False (decimal t)"
proof -
  obtain c cs where t: "t = c # cs" using assms(1) by (cases t) auto
  with assms(2) have c: "is_digit c" by simp
  have dw: "dropWhile is_ws t = t" using c by (simp add: t is_digit_not_ws)
  have sg: "strip_sign t = t" "\<not> is_negative t" using sign_digit [OF c] by (simp_all add: t)
  have nh: "\<not> hex_prefix t" using assms(2) by (rule hex_prefix_digits)
  have tw: "takeWhile (\<lambda>c. radix_digit 10 c \<noteq> None) t = t"
    using assms(2) by (rule takeWhile_digits)
  show ?thesis
    unfolding js_parseInt_def Let_def dw sg(1)
    using nh sg(2) assms(1) digits_value_decimal [OF assms(2)]
    by (simp add: tw del: not_None_eq)
qed

lemma bit_length_le: "(bit_length n \<le> k) = (n < 2 ^ k)"
proof (induction n arbitrary: k rule: bit_length.induct)
  case (1 n)
  show ?case
  proof (cases "n = 0")
    case True
    then show ?thesis by (subst bit_length.simps) simp
  next
    case False
    show ?thesis
    proof (cases k)
      case 0
      with False show ?thesis by (subst bit_length.simps) simp
    next
      case (Suc j)
      have "(bit_length n \<le> Suc j) = (bit_length (n div 2) \<le> j)"
        using False by (subst bit_length.simps) simp
      also have "\<dots> = (n div 2 < 2 ^ j)" using 1 [OF False] .
      also have "\<dots> = (n < 2 ^ Suc j)" by auto
      finally show ?thesis by (simp add: Suc)
    qed
  qed
qed

text \<open>Below \<open>2^53\<close> the Number of an integer is the integer, and it prints digit by
  digit.\<close>

lemma js_number_exact: "m < 2 ^ 53 \<Longrightarrow> js_number False m = Num (int m)"
  by (simp add: js_number_def to_double_def bit_length_le)

lemma toString_nat: "n < 2 ^ 53 \<Longrightarrow> js_toString (Num (int n)) = show_nat n"
  by (simp add: js_toString_def show_magnitude_def bit_length_le)

text \<open>Evaluation of the number functions on numerals.\<close>

lemma digit_chars:
  "char_of (48::nat) = CHR ''0''" "char_of (49::nat) = CHR ''1''" "char_of (50::nat) = CHR ''2''"
  "char_of (51::nat) = CHR ''3''" "char_of (52::nat) = CHR ''4''" "char_of (53::nat) = CHR ''5''"
  "char_of (54::nat) = CHR ''6''" "char_of (55::nat) = CHR ''7''" "char_of (56::nat) = CHR ''8''"
  "char_of (57::nat) = CHR ''9''"
  by code_simp+

lemma shortest_at_step:
  "0 < e \<Longrightarrow> shortest_at x e =
     (let p = 10 ^ e;
          lo = (x div p) * p;
          hi = lo + p;
          l = (to_double lo = Some x);
          h = (to_double hi = Some x)
      in if l \<and> h then (if x - lo < hi - x then lo
                         else if hi - x < x - lo then hi
                         else if even (x div p) then lo else hi)
         else if l then lo
         else if h then hi
         else shortest_at x (e - 1))"
  by (cases e) (simp_all add: Let_def)

lemmas number_eval = js_parseInt_def is_ws_def strip_sign_def is_negative_def hex_prefix_def
  radix_digit_def digits_value_def js_number_def to_double_def Let_def bit_length.simps
  js_toString_def show_magnitude_def show_double_def strip_zeros_def show_nat.simps digit_chars
  shortest_at_step

lemma js_parseInt_show_nat: "n < 2 ^ 53 \<Longrightarrow> js_parseInt (show_nat n) = Num (int n)"
  by (simp add: js_parseInt_digits show_nat_ne show_nat_digits decimal_show_nat js_number_exact)

subsection \<open>The parser, rule by rule\<close>

lemma length_five: "length xs = 5 \<Longrightarrow> \<exists>a b c d e. xs = [a, b, c, d, e]"
  by (cases xs; simp; cases "tl xs"; simp; cases "tl (tl xs)"; simp;
      cases "tl (tl (tl xs))"; simp; cases "tl (tl (tl (tl xs)))"; simp)

lemma hhmm_00: "hhmm ''0'' ''0'' = ''00:00''"
  by (simp add: hhmm_def padStart_def)

text \<open>On five fields the parser is the chain of rules 2 to 5; rule 1 gives what rule 2
  gives.\<close>

lemma parseExpression_fields:
  "js_split (CHR '' '') cron = [minute, hour, d, month, weekday] \<Longrightarrow>
   parseExpression cron =
     (if minute \<noteq> ''*'' \<and> hour \<noteq> ''*'' \<and> d = ''*'' \<and> month = ''*'' \<and> weekday = ''*''
      then Some \<lparr>type = ''daily'', time = Some (hhmm hour minute), days = None, day = None,
                 expression = None\<rparr>
      else if minute \<noteq> ''*'' \<and> hour \<noteq> ''*'' \<and> d = ''*'' \<and> month = ''*'' \<and> weekday \<noteq> ''*''
      then Some \<lparr>type = ''weekly'', time = Some (hhmm hour minute),
                 days = Some (map js_parseInt (js_split (CHR '','') weekday)), day = None,
                 expression = None\<rparr>
      else if minute \<noteq> ''*'' \<and> hour \<noteq> ''*'' \<and> d \<noteq> ''*'' \<and> month = ''*'' \<and> weekday = ''*''
      then Some \<lparr>type = ''monthly'', time = Some (hhmm hour minute), days = None,
                 day = Some (js_parseInt d), expression = None\<rparr>
      else Some \<lparr>type = ''custom'', time = None, days = None, day = None,
                 expression = Some cron\<rparr>)"
  by (auto simp add: parseExpression_def hhmm_00)

lemma parseExpression_None_iff:
  "(parseExpression cron = None) = (length (js_split (CHR '' '') cron) \<noteq> 5)"
proof (cases "length (js_split (CHR '' '') cron) = 5")
  case True
  then obtain a b c d e where "js_split (CHR '' '') cron = [a, b, c, d, e]"
    using length_five by blast
  then show ?thesis by (simp add: parseExpression_fields)
next
  case False
  then show ?thesis by (simp add: parseExpression_def)
qed

subsection \<open>The claims\<close>

text \<open>
  C2, as stated: \<open>parseExpression\<close> returns \<open>null\<close> exactly when the input does not
  consist of exactly five whitespace-separated fields. The code cuts at every single
  space (U+0020) and at nothing else, so an input whose five fields are separated by
  TAB characters is rejected although it has five whitespace-separated fields.
\<close>

theorem parseExpression_whitespace_counterexample:
  "length (ws_fields [CHR ''0'', CHR 0x09, CHR ''0'', CHR 0x09, CHR ''*'', CHR 0x09, CHR ''*'',
                      CHR 0x09, CHR ''*'']) = 5
   \<and> parseExpression [CHR ''0'', CHR 0x09, CHR ''0'', CHR 0x09, CHR ''*'', CHR 0x09, CHR ''*'',
                       CHR 0x09, CHR ''*''] = None"
  by (simp add: is_ws_def parseExpression_def)

text \<open>
  C2, amended: \<open>parseExpression\<close> returns \<open>null\<close> exactly when cutting the input at
  every single space character, empty pieces kept, does not give exactly five pieces; on
  every input that gives five pieces it returns a configuration.
\<close>

theorem parseExpression_null_iff:
  "(parseExpression cron = None) = (length (js_split (CHR '' '') cron) \<noteq> 5)
   \<and> (length (js_split (CHR '' '') cron) = 5 \<longrightarrow> (\<exists>config. parseExpression cron = Some config))"
  using parseExpression_None_iff [of cron] by auto

theorem parseExpression_null_iff_witness:
  "length (js_split (CHR '' '') ''1 2 3 4 5'') = 5
   \<and> (\<exists>config. parseExpression ''1 2 3 4 5'' = Some config)
   \<and> parseExpression ''0 0  * * *'' = None"
  using parseExpression_null_iff [of "''1 2 3 4 5''"] parseExpression_null_iff [of "''0 0  * * *''"]
  by simp

text \<open>
  C5: \<open>humanReadable\<close> returns \<open>Invalid cron expression\<close> if and only if
  \<open>parseExpression\<close> fails, that is, exactly when the input does not split into five
  fields; so it does on \<open>not a cron\<close>.
\<close>

theorem humanReadable_invalid_iff:
  "(humanReadable cron = ''Invalid cron expression'') = (parseExpression cron = None)
   \<and> (humanReadable cron = ''Invalid cron expression'')
       = (length (js_split (CHR '' '') cron) \<noteq> 5)
   \<and> humanReadable ''not a cron'' = ''Invalid cron expression''"
proof -
  have a: "(humanReadable cron = ''Invalid cron expression'') = (parseExpression cron = None)"
    by (cases "parseExpression cron") (simp_all add: humanReadable_def Let_def)
  have b: "parseExpression ''not a cron'' = None"
    by (simp add: parseExpression_def)
  have c: "humanReadable ''not a cron'' = ''Invalid cron expression''"
    by (simp add: humanReadable_def b)
  from a c show ?thesis by (simp add: parseExpression_None_iff)
qed

theorem humanReadable_invalid_iff_witness:
  "humanReadable ''0 0  * * *'' = ''Invalid cron expression''
   \<and> humanReadable ''0 0 * * *'' \<noteq> ''Invalid cron expression''"
  using humanReadable_invalid_iff [of "''0 0  * * *''"] humanReadable_invalid_iff [of "''0 0 * * *''"]
  by (simp add: parseExpression_def)

text \<open>
  C8: the first rule of \<open>parseExpression\<close> (the input \<open>0 0 * * *\<close>) is redundant: the
  parser without it returns the same result on every input.
\<close>

theorem parseExpression_merged_eq: "parseExpression_merged cron = parseExpression cron"
proof (cases "length (js_split (CHR '' '') cron) = 5")
  case True
  then obtain a b c d e where "js_split (CHR '' '') cron = [a, b, c, d, e]"
    using length_five by blast
  then show ?thesis
    by (simp add: parseExpression_fields) (simp add: parseExpression_merged_def)
next
  case False
  then show ?thesis by (simp add: parseExpression_def parseExpression_merged_def)
qed

lemma set_js_join:
  "c \<in> set (js_join sep xs) \<Longrightarrow> c \<in> set sep \<or> (\<exists>x\<in>set xs. c \<in> set x)"
  by (induction sep xs rule: js_join.induct) auto

lemma split_daily:
  "CHR '' '' \<notin> set minute \<Longrightarrow> CHR '' '' \<notin> set hour \<Longrightarrow>
   js_split (CHR '' '') (minute @ '' '' @ hour @ '' * * *'') = [minute, hour, ''*'', ''*'', ''*'']"
  by (simp add: js_split_app)

lemma split_weekly:
  "CHR '' '' \<notin> set minute \<Longrightarrow> CHR '' '' \<notin> set hour \<Longrightarrow> CHR '' '' \<notin> set weekday \<Longrightarrow>
   js_split (CHR '' '') (minute @ '' '' @ hour @ '' * * '' @ weekday)
     = [minute, hour, ''*'', ''*'', weekday]"
  by (simp add: js_split_app js_split_nosep)

lemma split_monthly:
  "CHR '' '' \<notin> set minute \<Longrightarrow> CHR '' '' \<notin> set hour \<Longrightarrow> CHR '' '' \<notin> set d \<Longrightarrow>
   js_split (CHR '' '') (minute @ '' '' @ hour @ '' '' @ d @ '' * *'')
     = [minute, hour, d, ''*'', ''*'']"
  by (simp add: js_split_app)

text \<open>
  C9: the Daily branch of \<open>parseExpression\<close> validates no number. For every input of
  five fields whose minute and hour tokens are any strings other than \<open>*\<close> and whose
  other three fields are \<open>*\<close>, the result is a Daily configuration whose time is the
  raw hour token padded to two characters, a colon, and the raw minute token padded to two
  characters; \<open>ab cd * * *\<close> gives the time \<open>cd:ab\<close>.
\<close>

theorem parseExpression_daily_unvalidated:
  assumes "CHR '' '' \<notin> set minute" and "CHR '' '' \<notin> set hour"
    and "minute \<noteq> ''*''" and "hour \<noteq> ''*''"
  shows "parseExpression (minute @ '' '' @ hour @ '' * * *'')
           = Some \<lparr>type = ''daily'',
                    time = Some (padStart 2 (CHR ''0'') hour @ '':'' @ padStart 2 (CHR ''0'') minute),
                    days = None, day = None, expression = None\<rparr>
         \<and> parseExpression ''ab cd * * *''
           = Some \<lparr>type = ''daily'', time = Some ''cd:ab'', days = None, day = None,
                    expression = None\<rparr>"
proof -
  have "parseExpression ''ab cd * * *''
           = Some \<lparr>type = ''daily'', time = Some ''cd:ab'', days = None, day = None,
                    expression = None\<rparr>"
    by (simp add: parseExpression_def hhmm_def padStart_def)
  moreover have "parseExpression (minute @ '' '' @ hour @ '' * * *'')
           = Some \<lparr>type = ''daily'',
                    time = Some (padStart 2 (CHR ''0'') hour @ '':'' @ padStart 2 (CHR ''0'') minute),
                    days = None, day = None, expression = None\<rparr>"
    using assms(3,4) parseExpression_fields [OF split_daily [OF assms(1,2)]]
    by (simp add: hhmm_def)
  ultimately show ?thesis by simp
qed

theorem parseExpression_daily_unvalidated_witness:
  "parseExpression ''xy 7 * * *''
     = Some \<lparr>type = ''daily'', time = Some ''07:xy'', days = None, day = None, expression = None\<rparr>"
  using parseExpression_daily_unvalidated [of "''xy''" "''7''"]
  by (simp add: padStart_def)

lemma numeric_join:
  assumes "ts \<noteq> []" and "list_all numeric_token ts"
  shows "CHR '' '' \<notin> set (js_join '','' ts)" and "js_join '','' ts \<noteq> ''*''"
    and "js_split (CHR '','') (js_join '','' ts) = ts"
    and "map js_parseInt ts = map (\<lambda>t. js_number False (decimal t)) ts"
proof -
  have dig: "\<And>t c. t \<in> set ts \<Longrightarrow> c \<in> set t \<Longrightarrow> is_digit c"
    using assms(2) by (auto simp add: list_all_iff numeric_token_def)
  have chars: "\<And>c. c \<in> set (js_join '','' ts) \<Longrightarrow> c = CHR '','' \<or> is_digit c"
    using set_js_join [of _ "'',''" ts] dig by auto
  show "CHR '' '' \<notin> set (js_join '','' ts)"
    using chars [of "CHR '' ''"] is_digit_neq [of "CHR '' ''"] by auto
  have "CHR ''*'' \<notin> set (js_join '','' ts)"
    using chars [of "CHR ''*''"] is_digit_neq [of "CHR ''*''"] by auto
  then show "js_join '','' ts \<noteq> ''*''" by auto
  have "\<forall>t\<in>set ts. CHR '','' \<notin> set t"
    using dig is_digit_neq by blast
  then show "js_split (CHR '','') (js_join '','' ts) = ts"
    using js_split_join [OF assms(1), of "CHR '',''"] by simp
  show "map js_parseInt ts = map (\<lambda>t. js_number False (decimal t)) ts"
    using assms(2) by (auto simp add: list_all_iff numeric_token_def js_parseInt_digits)
qed

text \<open>
  C4: for every input of five fields whose minute and hour fields are not \<open>*\<close>, whose
  day and month fields are \<open>*\<close> and whose weekday field is not \<open>*\<close>, the result is a
  Weekly configuration: its time is the hour and minute tokens, each padded to two
  characters, joined by a colon; its days are the pieces of the weekday field between
  commas, each through \<open>parseInt\<close>, in the order given. When the pieces are numeric
  tokens \<open>ts\<close>, the days are the Numbers of their decimal values in that order,
  repetitions kept.
  \<open>30 14 * * 1,3,5\<close> gives the time \<open>14:30\<close> and the days \<open>[1,3,5]\<close>.
\<close>

theorem parseExpression_weekly:
  assumes "CHR '' '' \<notin> set minute" and "CHR '' '' \<notin> set hour"
    and "minute \<noteq> ''*''" and "hour \<noteq> ''*''"
  shows "(CHR '' '' \<notin> set weekday \<and> weekday \<noteq> ''*'' \<longrightarrow>
           parseExpression (minute @ '' '' @ hour @ '' * * '' @ weekday)
             = Some \<lparr>type = ''weekly'',
                      time = Some (padStart 2 (CHR ''0'') hour @ '':'' @ padStart 2 (CHR ''0'') minute),
                      days = Some (map js_parseInt (js_split (CHR '','') weekday)),
                      day = None, expression = None\<rparr>)
         \<and> (ts \<noteq> [] \<and> list_all numeric_token ts \<longrightarrow>
           parseExpression (minute @ '' '' @ hour @ '' * * '' @ js_join '','' ts)
             = Some \<lparr>type = ''weekly'',
                      time = Some (padStart 2 (CHR ''0'') hour @ '':'' @ padStart 2 (CHR ''0'') minute),
                      days = Some (map (\<lambda>t. js_number False (decimal t)) ts),
                      day = None, expression = None\<rparr>)
         \<and> parseExpression ''30 14 * * 1,3,5''
             = Some \<lparr>type = ''weekly'', time = Some ''14:30'', days = Some [Num 1, Num 3, Num 5],
                      day = None, expression = None\<rparr>"
proof -
  have gen: "parseExpression (minute @ '' '' @ hour @ '' * * '' @ w)
             = Some \<lparr>type = ''weekly'',
                      time = Some (padStart 2 (CHR ''0'') hour @ '':'' @ padStart 2 (CHR ''0'') minute),
                      days = Some (map js_parseInt (js_split (CHR '','') w)),
                      day = None, expression = None\<rparr>"
    if "CHR '' '' \<notin> set w" and "w \<noteq> ''*''" for w
    using assms(3,4) that(2) parseExpression_fields [OF split_weekly [OF assms(1,2) that(1)]]
    by (simp add: hhmm_def)
  have num: "parseExpression (minute @ '' '' @ hour @ '' * * '' @ js_join '','' ts)
             = Some \<lparr>type = ''weekly'',
                      time = Some (padStart 2 (CHR ''0'') hour @ '':'' @ padStart 2 (CHR ''0'') minute),
                      days = Some (map (\<lambda>t. js_number False (decimal t)) ts),
                      day = None, expression = None\<rparr>"
    if "ts \<noteq> []" and "list_all numeric_token ts"
    using gen [OF numeric_join(1,2) [OF that]] numeric_join(3,4) [OF that] by simp
  have ex: "parseExpression ''30 14 * * 1,3,5''
             = Some \<lparr>type = ''weekly'', time = Some ''14:30'', days = Some [Num 1, Num 3, Num 5],
                      day = None, expression = None\<rparr>"
    by code_simp
  from gen num ex show ?thesis by blast
qed

theorem parseExpression_weekly_witness:
  "parseExpression ''5 07 * * 6,06,0,9007199254740993''
     = Some \<lparr>type = ''weekly'', time = Some ''07:05'',
              days = Some [Num 6, Num 6, Num 0, Num 9007199254740992],
              day = None, expression = None\<rparr>
   \<and> parseExpression ''5 07 * * x,-2''
     = Some \<lparr>type = ''weekly'', time = Some ''07:05'', days = Some [NaN, Num (- 2)],
              day = None, expression = None\<rparr>"
proof -
  have a: "CHR '' '' \<notin> set ''5''" "CHR '' '' \<notin> set ''07''" "''5'' \<noteq> ''*''" "''07'' \<noteq> ''*''"
    by simp_all
  have n: "[''6'', ''06'', ''0'', ''9007199254740993''] \<noteq> []
           \<and> list_all numeric_token [''6'', ''06'', ''0'', ''9007199254740993'']"
    by (simp add: numeric_token_def is_digit_def)
  have g: "CHR '' '' \<notin> set ''x,-2'' \<and> ''x,-2'' \<noteq> ''*''" by simp
  have d: "map (\<lambda>t. js_number False (decimal t)) [''6'', ''06'', ''0'', ''9007199254740993'']
             = [Num 6, Num 6, Num 0, Num 9007199254740992]"
    by (simp add: decimal_def digit_of_def js_number_def to_double_def bit_length.simps Let_def)
  have p: "map js_parseInt (js_split (CHR '','') ''x,-2'') = [NaN, Num (- 2)]"
    by code_simp
  show ?thesis
    using parseExpression_weekly [OF a, of "''x,-2''" "[''6'', ''06'', ''0'', ''9007199254740993'']"]
      n g d p
    by (simp add: padStart_def)
qed

subsection \<open>The humanizer\<close>

lemma parsed_time:
  assumes "parseExpression cron = Some c" and "type c \<noteq> ''custom''"
  shows "\<exists>t. time c = Some t"
proof -
  from assms have "length (js_split (CHR '' '') cron) = 5"
    using parseExpression_None_iff [of cron] by auto
  then obtain a b d e f where sp: "js_split (CHR '' '') cron = [a, b, d, e, f]"
    using length_five by blast
  have "Some c = parseExpression cron" using assms(1) by simp
  also note parseExpression_fields [OF sp]
  finally show ?thesis using assms(2)
    by (simp split: if_splits)
qed


lemma weekday_in_rangeE:
  assumes "weekday_in_range w"
  obtains n where "w = Num (int n)" and "n \<le> 6"
proof -
  from assms obtain k where w: "w = Num k" and k: "0 \<le> k" "k \<le> 6"
    by (cases w) (auto simp add: weekday_in_range_def)
  then have "w = Num (int (nat k))" and "nat k \<le> 6" by simp_all
  then show ?thesis by (rule that)
qed

lemma index_dayNames:
  "n \<le> 6 \<Longrightarrow> join_elem (index_num dayNames (Num (int n))) = dayNames ! n"
  by (simp add: index_num_def dayNames_def join_elem_def)


text \<open>
  C6: for every input that parses as Weekly with entries of \<open>days\<close> in \<open>[0,6]\<close>,
  \<open>humanReadable\<close> returns \<open>Weekly on {names} at {time}\<close>, the names read from
  \<open>dayNames\<close> at each entry and joined by a comma and a space in the order of \<open>days\<close>;
  \<open>0 9 * * 1,3,5\<close> gives \<open>Weekly on Monday, Wednesday, Friday at 09:00\<close>.
\<close>

theorem humanReadable_weekly:
  assumes "parseExpression cron = Some c" and "type c = ''weekly''"
    and "days c = Some (map (\<lambda>n. Num (int n)) ns)" and "\<forall>n\<in>set ns. n \<le> 6"
  shows "(\<exists>t. time c = Some t \<and>
            humanReadable cron
              = ''Weekly on '' @ js_join '', '' (map (\<lambda>n. dayNames ! n) ns) @ '' at '' @ t)
         \<and> humanReadable ''0 9 * * 1,3,5'' = ''Weekly on Monday, Wednesday, Friday at 09:00''"
proof -
  from parsed_time [OF assms(1)] assms(2)
  obtain t where t: "time c = Some t" by auto
  have names: "map (\<lambda>d. join_elem (index_num dayNames d)) (map (\<lambda>n. Num (int n)) ns)
                 = map (\<lambda>n. dayNames ! n) ns"
    using assms(4) by (induction ns) (simp_all add: index_dayNames)
  have "humanReadable cron
          = ''Weekly on '' @ js_join '', '' (map (\<lambda>n. dayNames ! n) ns) @ '' at '' @ t"
    unfolding humanReadable_def
    by (simp only: assms(1,2,3) t option.case js_or_array_def tmpl_str_def Let_def names) simp
  moreover have "humanReadable ''0 9 * * 1,3,5'' = ''Weekly on Monday, Wednesday, Friday at 09:00''"
    by code_simp
  ultimately show ?thesis using t by simp
qed

theorem humanReadable_weekly_witness:
  "humanReadable ''15 8 * * 6,0,6'' = ''Weekly on Saturday, Sunday, Saturday at 08:15''"
proof -
  have p: "parseExpression ''15 8 * * 6,0,6''
             = Some \<lparr>type = ''weekly'', time = Some ''08:15'', days = Some [Num 6, Num 0, Num 6],
                      day = None, expression = None\<rparr>"
    by code_simp
  have d: "days \<lparr>type = ''weekly'', time = Some ''08:15'', days = Some [Num 6, Num 0, Num 6],
                      day = None, expression = None\<rparr> = Some (map (\<lambda>n. Num (int n)) [6, 0, 6])"
    by simp
  have r: "\<forall>n\<in>set [6, 0, 6 :: nat]. n \<le> 6" by simp
  show ?thesis
    using humanReadable_weekly [OF p _ d r] by (simp add: dayNames_def)
qed

text \<open>
  C7: in the Monthly rendering of \<open>humanReadable\<close> the suffix after the day is \<open>st\<close>
  exactly for day 1, \<open>nd\<close> exactly for day 2, \<open>rd\<close> exactly for day 3 and \<open>th\<close> for
  every other value, 11, 12, 13, 21 and 31 among them (day 21 renders as \<open>21th\<close>);
  \<open>0 0 15 * *\<close> gives \<open>Monthly on the 15th at 00:00\<close>. The day is printed as the
  Number that \<open>parseInt\<close> gave, so a day token of 22 digits prints in exponent form.
\<close>

theorem suffix_cases:
  "(suffix d = ''st'') = (d = Some (Num 1))
   \<and> (suffix d = ''nd'') = (d = Some (Num 2))
   \<and> (suffix d = ''rd'') = (d = Some (Num 3))
   \<and> (suffix d = ''th'') = (d \<noteq> Some (Num 1) \<and> d \<noteq> Some (Num 2) \<and> d \<noteq> Some (Num 3))
   \<and> suffix (Some (Num 11)) = ''th'' \<and> suffix (Some (Num 12)) = ''th''
   \<and> suffix (Some (Num 13)) = ''th'' \<and> suffix (Some (Num 21)) = ''th''
   \<and> suffix (Some (Num 31)) = ''th''
   \<and> (parseExpression cron = Some c \<and> type c = ''monthly'' \<longrightarrow>
        (\<exists>t. time c = Some t \<and>
           humanReadable cron
             = ''Monthly on the '' @ tmpl_num (day c) @ suffix (day c) @ '' at '' @ t))
   \<and> humanReadable ''0 0 21 * *'' = ''Monthly on the 21th at 00:00''
   \<and> humanReadable ''0 0 15 * *'' = ''Monthly on the 15th at 00:00''
   \<and> humanReadable ''0 0 1000000000000000000000 * *'' = ''Monthly on the 1e+21th at 00:00''"
proof -
  have s: "(suffix d = ''st'') = (d = Some (Num 1))"
    "(suffix d = ''nd'') = (d = Some (Num 2))"
    "(suffix d = ''rd'') = (d = Some (Num 3))"
    "(suffix d = ''th'') = (d \<noteq> Some (Num 1) \<and> d \<noteq> Some (Num 2) \<and> d \<noteq> Some (Num 3))"
    by (simp_all add: suffix_def)
  have k: "suffix (Some (Num 11)) = ''th''" "suffix (Some (Num 12)) = ''th''"
    "suffix (Some (Num 13)) = ''th''" "suffix (Some (Num 21)) = ''th''"
    "suffix (Some (Num 31)) = ''th''"
    by (simp_all add: suffix_def)
  have m: "parseExpression cron = Some c \<and> type c = ''monthly'' \<longrightarrow>
        (\<exists>t. time c = Some t \<and>
           humanReadable cron
             = ''Monthly on the '' @ tmpl_num (day c) @ suffix (day c) @ '' at '' @ t)"
  proof (intro impI, elim conjE)
    assume p: "parseExpression cron = Some c" and ty: "type c = ''monthly''"
    from parsed_time [OF p] ty obtain t where t: "time c = Some t" by auto
    have "humanReadable cron
             = ''Monthly on the '' @ tmpl_num (day c) @ suffix (day c) @ '' at '' @ t"
      unfolding humanReadable_def
      by (simp only: p ty t option.case tmpl_str_def) simp
    with t show "\<exists>t. time c = Some t \<and>
           humanReadable cron
             = ''Monthly on the '' @ tmpl_num (day c) @ suffix (day c) @ '' at '' @ t"
      by simp
  qed
  have e1: "humanReadable ''0 0 21 * *'' = ''Monthly on the 21th at 00:00''" by code_simp
  have e2: "humanReadable ''0 0 15 * *'' = ''Monthly on the 15th at 00:00''" by code_simp
  have e3: "humanReadable ''0 0 1000000000000000000000 * *'' = ''Monthly on the 1e+21th at 00:00''"
    by (simp add: humanReadable_def parseExpression_def hhmm_def padStart_def tmpl_num_def
          tmpl_str_def suffix_def number_eval)
  show ?thesis
    by (intro conjI) (rule s k m e1 e2 e3)+
qed

theorem suffix_cases_witness:
  "humanReadable ''5 6 2 * *'' = ''Monthly on the 2nd at 06:05''
   \<and> humanReadable ''5 6 12 * *'' = ''Monthly on the 12th at 06:05''"
proof -
  have p: "parseExpression ''5 6 2 * *''
             = Some \<lparr>type = ''monthly'', time = Some ''06:05'', days = None, day = Some (Num 2),
                      expression = None\<rparr>"
    by code_simp
  have q: "parseExpression ''5 6 12 * *''
             = Some \<lparr>type = ''monthly'', time = Some ''06:05'', days = None, day = Some (Num 12),
                      expression = None\<rparr>"
    by code_simp
  have n: "tmpl_num (Some (Num 2)) = ''2''" "tmpl_num (Some (Num 12)) = ''12''" by code_simp+
  have s: "suffix (Some (Num 2)) = ''nd''" "suffix (Some (Num 12)) = ''th''"
    by (simp_all add: suffix_def)
  have a: "humanReadable ''5 6 2 * *'' = ''Monthly on the 2nd at 06:05''"
    using suffix_cases [of "Some (Num 2)" "''5 6 2 * *''" "\<lparr>type = ''monthly'', time = Some ''06:05'', days = None, day = Some (Num 2), expression = None\<rparr>"]
    by (simp add: p n s)
  have b: "humanReadable ''5 6 12 * *'' = ''Monthly on the 12th at 06:05''"
    using suffix_cases [of "Some (Num 12)" "''5 6 12 * *''" "\<lparr>type = ''monthly'', time = Some ''06:05'', days = None, day = Some (Num 12), expression = None\<rparr>"]
    by (simp add: q n s)
  from a b show ?thesis by simp
qed



subsection \<open>The generator\<close>

lemma valid_timeE:
  assumes "valid_time t"
  obtains a b d e where "t = [a, b, CHR '':'', d, e]"
    and "is_digit a" and "is_digit b" and "is_digit d" and "is_digit e"
  using assms by (auto simp add: valid_time_def split: list.splits)

lemma show_nat_digit: "n < 10 \<Longrightarrow> show_nat n = [char_of (48 + n)]"
  by (subst show_nat.simps) simp

lemma show_two_digits:
  assumes "is_digit a" and "is_digit b"
  shows "padStart 2 (CHR ''0'') (show_nat (decimal [a, b])) = [a, b]"
proof -
  have da: "digit_of a < 10" and db: "digit_of b < 10"
    using assms by (auto simp add: is_digit_def digit_of_def)
  have dec: "decimal [a, b] = 10 * digit_of a + digit_of b"
    by (simp add: decimal_def)
  show ?thesis
  proof (cases "digit_of a = 0")
    case True
    with assms(1) have "of_char a = (48::nat)" by (simp add: is_digit_def digit_of_def)
    then have "of_char a = (of_char (CHR ''0'') :: nat)" by simp
    then have a: "a = CHR ''0''" by (simp only: of_char_eq_iff)
    have "show_nat (decimal [a, b]) = [b]"
      using db True by (simp add: dec show_nat_digit char_of_digit [OF assms(2)])
    then show ?thesis by (simp add: padStart_def a)
  next
    case False
    then have ge: "\<not> 10 * digit_of a + digit_of b < 10" by simp
    have dv: "(10 * digit_of a + digit_of b) div 10 = digit_of a"
      and md: "(10 * digit_of a + digit_of b) mod 10 = digit_of b"
      using db by simp_all
    have "show_nat (10 * digit_of a + digit_of b)
            = show_nat (digit_of a) @ [char_of (48 + digit_of b)]"
      by (subst show_nat.simps) (simp only: ge dv md if_False)
    then have "show_nat (10 * digit_of a + digit_of b) = [a, b]"
      by (simp add: show_nat_digit [OF da] char_of_digit assms)
    then show ?thesis by (simp add: dec padStart_def)
  qed
qed

lemma decimal_two_digits: "is_digit a \<Longrightarrow> is_digit b \<Longrightarrow> decimal [a, b] < 100"
  by (auto simp add: decimal_def is_digit_def digit_of_def)

lemma decimal_two_digits_exact: "is_digit a \<Longrightarrow> is_digit b \<Longrightarrow> decimal [a, b] < 2 ^ 53"
  using decimal_two_digits [of a b] by simp

lemma time_parts_valid:
  assumes "time c = Some [a, b, CHR '':'', d, e]"
    and "is_digit a" and "is_digit b" and "is_digit d" and "is_digit e"
  shows "time_parts c = [Num (int (decimal [a, b])), Num (int (decimal [d, e]))]"
proof -
  have ne: "a \<noteq> CHR '':''" "b \<noteq> CHR '':''" "d \<noteq> CHR '':''" "e \<noteq> CHR '':''"
    using assms(2-5) is_digit_neq by blast+
  have sp: "js_split (CHR '':'') [a, b, CHR '':'', d, e] = [[a, b], [d, e]]"
    using ne by simp
  have ex: "js_number False (decimal [a, b]) = Num (int (decimal [a, b]))"
    "js_number False (decimal [d, e]) = Num (int (decimal [d, e]))"
    by (rule js_number_exact [OF decimal_two_digits_exact [OF assms(2,3)]],
        rule js_number_exact [OF decimal_two_digits_exact [OF assms(4,5)]])
  show ?thesis
    by (simp add: time_parts_def assms js_or_str_def ne js_parseInt_digits ex)
qed

lemma show_nat_chars:
  "CHR '' '' \<notin> set (show_nat n)" "show_nat n \<noteq> ''*''"
proof -
  have d: "\<And>c. c \<in> set (show_nat n) \<Longrightarrow> is_digit c"
    using show_nat_digits [of n] by (simp add: list_all_iff)
  show "CHR '' '' \<notin> set (show_nat n)"
    using d [of "CHR '' ''"] is_digit_neq [of "CHR '' ''"] by auto
  have "CHR ''*'' \<notin> set (show_nat n)"
    using d [of "CHR ''*''"] is_digit_neq [of "CHR ''*''"] by auto
  then show "show_nat n \<noteq> ''*''" by auto
qed

text \<open>What the generator builds from a valid time: the minute and the hour in decimal.\<close>

lemma generate_valid_time:
  assumes "time c = Some [a, b, CHR '':'', d, e]"
    and "is_digit a" and "is_digit b" and "is_digit d" and "is_digit e"
  shows "tmpl_num (elem_at (time_parts c) 0) = show_nat (decimal [a, b])"
    and "tmpl_num (elem_at (time_parts c) 1) = show_nat (decimal [d, e])"
  by (simp_all add: time_parts_valid [OF assms] elem_at_def tmpl_num_def
        toString_nat [OF decimal_two_digits_exact [OF assms(2,3)]]
        toString_nat [OF decimal_two_digits_exact [OF assms(4,5)]])

lemma hhmm_show:
  assumes "is_digit a" and "is_digit b" and "is_digit d" and "is_digit e"
  shows "hhmm (show_nat (decimal [a, b])) (show_nat (decimal [d, e])) = [a, b, CHR '':'', d, e]"
  by (simp add: hhmm_def show_two_digits assms)

lemma roundtrip_daily:
  assumes "type c = ''daily''" and "time c = Some t" and "valid_time t"
  shows "parseExpression (generateExpression c)
           = Some \<lparr>type = ''daily'', time = Some t, days = None, day = None, expression = None\<rparr>"
proof -
  from assms(3) obtain a b d e where t: "t = [a, b, CHR '':'', d, e]"
    and dg: "is_digit a" "is_digit b" "is_digit d" "is_digit e"
    by (rule valid_timeE)
  let ?h = "show_nat (decimal [a, b])" and ?m = "show_nat (decimal [d, e])"
  have tc: "time c = Some [a, b, CHR '':'', d, e]" using assms(2) t by simp
  have g: "generateExpression c = ?m @ '' '' @ ?h @ '' * * *''"
    unfolding generateExpression_def Let_def generate_valid_time [OF tc dg]
    by (simp add: assms(1))
  show ?thesis
    unfolding g
    using parseExpression_fields
        [OF split_daily [OF show_nat_chars(1) [of "decimal [d, e]"]
                            show_nat_chars(1) [of "decimal [a, b]"]]]
      show_nat_chars(2) [of "decimal [a, b]"] show_nat_chars(2) [of "decimal [d, e]"]
    by (simp add: hhmm_show [OF dg] t)
qed

lemma roundtrip_monthly:
  assumes "type c = ''monthly''" and "time c = Some t" and "valid_time t"
    and "day c = Some (Num k)" and "1 \<le> k" and "k \<le> 31"
  shows "parseExpression (generateExpression c)
           = Some \<lparr>type = ''monthly'', time = Some t, days = None, day = Some (Num k),
                    expression = None\<rparr>"
proof -
  from assms(3) obtain a b d e where t: "t = [a, b, CHR '':'', d, e]"
    and dg: "is_digit a" "is_digit b" "is_digit d" "is_digit e"
    by (rule valid_timeE)
  let ?h = "show_nat (decimal [a, b])" and ?m = "show_nat (decimal [d, e])"
  let ?k = "show_nat (nat k)"
  have tc: "time c = Some [a, b, CHR '':'', d, e]" using assms(2) t by simp
  have dk: "js_toString (js_or_num (day c) (Num 1)) = ?k"
    using assms(5,6) toString_nat [of "nat k"] by (simp add: assms(4) js_or_num_def)
  have g: "generateExpression c = ?m @ '' '' @ ?h @ '' '' @ ?k @ '' * *''"
    unfolding generateExpression_def Let_def generate_valid_time [OF tc dg] dk
    by (simp add: assms(1))
  have pk: "js_parseInt ?k = Num k"
    using assms(5,6) by (simp add: js_parseInt_show_nat)
  show ?thesis
    unfolding g
    using parseExpression_fields
        [OF split_monthly [OF show_nat_chars(1) [of "decimal [d, e]"]
                              show_nat_chars(1) [of "decimal [a, b]"]
                              show_nat_chars(1) [of "nat k"]]]
      show_nat_chars(2) [of "decimal [a, b]"] show_nat_chars(2) [of "decimal [d, e]"]
      show_nat_chars(2) [of "nat k"]
    by (simp add: hhmm_show [OF dg] t pk)
qed

lemma toString_weekday:
  assumes "weekday_in_range w"
  shows "numeric_token (js_toString w)"
proof -
  from assms obtain n where w: "w = Num (int n)" and n: "n \<le> 6"
    by (rule weekday_in_rangeE)
  have "js_toString w = show_nat n" using n by (simp add: w toString_nat)
  then show ?thesis
    by (simp add: numeric_token_def show_nat_digits show_nat_ne)
qed

lemma parseInt_toString_weekday:
  assumes "weekday_in_range w"
  shows "js_parseInt (js_toString w) = w"
proof -
  from assms obtain n where w: "w = Num (int n)" and n: "n \<le> 6"
    by (rule weekday_in_rangeE)
  show ?thesis using n by (simp add: w toString_nat js_parseInt_show_nat)
qed

lemma roundtrip_weekly:
  assumes "type c = ''weekly''" and "time c = Some t" and "valid_time t"
    and "days c = Some ws" and "ws \<noteq> []" and "list_all weekday_in_range ws"
  shows "parseExpression (generateExpression c)
           = Some \<lparr>type = ''weekly'', time = Some t, days = Some ws, day = None,
                    expression = None\<rparr>"
proof -
  from assms(3) obtain a b d e where t: "t = [a, b, CHR '':'', d, e]"
    and dg: "is_digit a" "is_digit b" "is_digit d" "is_digit e"
    by (rule valid_timeE)
  let ?h = "show_nat (decimal [a, b])" and ?m = "show_nat (decimal [d, e])"
  let ?ts = "map js_toString ws"
  let ?w = "js_join '','' ?ts"
  have tc: "time c = Some [a, b, CHR '':'', d, e]" using assms(2) t by simp
  have g: "generateExpression c = ?m @ '' '' @ ?h @ '' * * '' @ ?w"
    unfolding generateExpression_def Let_def generate_valid_time [OF tc dg]
    by (simp add: assms(1,4) js_or_array_def)
  have ne: "?ts \<noteq> []" using assms(5) by simp
  have nt: "list_all numeric_token ?ts"
    using assms(6) by (simp add: list_all_iff toString_weekday)
  have bk: "map js_parseInt ?ts = ws"
    using assms(6) by (induction ws) (simp_all add: parseInt_toString_weekday)
  have dys: "map js_parseInt (js_split (CHR '','') ?w) = ws"
    by (simp only: numeric_join(3) [OF ne nt] bk)
  show ?thesis
    unfolding g
    using parseExpression_fields
        [OF split_weekly [OF show_nat_chars(1) [of "decimal [d, e]"]
                             show_nat_chars(1) [of "decimal [a, b]"]
                             numeric_join(1) [OF ne nt]]]
      show_nat_chars(2) [of "decimal [a, b]"] show_nat_chars(2) [of "decimal [d, e]"]
      numeric_join(2) [OF ne nt]
    by (simp add: hhmm_show [OF dg] t dys)
qed

text \<open>
  C1: the generator followed by the parser gives the configuration back. For every Daily
  configuration with a valid time, and every Monthly one with a valid time and a
  \<open>day\<close> in \<open>[1,31]\<close>, the result has the same type, the same time and (Monthly) the
  same day; for every Weekly configuration with a valid time and a non-empty \<open>days\<close> of
  integers in \<open>[0,6]\<close>, it also has the same \<open>days\<close>, in order.
\<close>

theorem generate_parse_roundtrip:
  "(type c = ''daily'' \<and> time c = Some t \<and> valid_time t \<longrightarrow>
      parseExpression (generateExpression c)
        = Some \<lparr>type = ''daily'', time = Some t, days = None, day = None, expression = None\<rparr>)
   \<and> (type c = ''monthly'' \<and> time c = Some t \<and> valid_time t
        \<and> day c = Some (Num k) \<and> 1 \<le> k \<and> k \<le> 31 \<longrightarrow>
      parseExpression (generateExpression c)
        = Some \<lparr>type = ''monthly'', time = Some t, days = None, day = Some (Num k),
                 expression = None\<rparr>)
   \<and> (type c = ''weekly'' \<and> time c = Some t \<and> valid_time t
        \<and> days c = Some ws \<and> ws \<noteq> [] \<and> list_all weekday_in_range ws \<longrightarrow>
      parseExpression (generateExpression c)
        = Some \<lparr>type = ''weekly'', time = Some t, days = Some ws, day = None,
                 expression = None\<rparr>)"
  using roundtrip_daily [of c t] roundtrip_monthly [of c t k] roundtrip_weekly [of c t ws]
  by blast

theorem generate_parse_roundtrip_witness:
  "parseExpression (generateExpression
      \<lparr>type = ''daily'', time = Some ''07:05'', days = None, day = None, expression = None\<rparr>)
     = Some \<lparr>type = ''daily'', time = Some ''07:05'', days = None, day = None, expression = None\<rparr>
   \<and> parseExpression (generateExpression
      \<lparr>type = ''monthly'', time = Some ''23:59'', days = None, day = Some (Num 31),
        expression = None\<rparr>)
     = Some \<lparr>type = ''monthly'', time = Some ''23:59'', days = None, day = Some (Num 31),
              expression = None\<rparr>
   \<and> parseExpression (generateExpression
      \<lparr>type = ''weekly'', time = Some ''00:00'', days = Some [Num 5, Num 0, Num 5], day = None,
        expression = None\<rparr>)
     = Some \<lparr>type = ''weekly'', time = Some ''00:00'', days = Some [Num 5, Num 0, Num 5],
              day = None, expression = None\<rparr>"
proof -
  have v: "valid_time ''07:05''" "valid_time ''23:59''" "valid_time ''00:00''"
    by (simp_all add: valid_time_def is_digit_def digit_of_def)
  have w: "list_all weekday_in_range [Num 5, Num 0, Num 5]"
    by (simp add: weekday_in_range_def)
  show ?thesis
    using generate_parse_roundtrip [of "\<lparr>type = ''daily'', time = Some ''07:05'', days = None, day = None, expression = None\<rparr>" "''07:05''"]
      generate_parse_roundtrip [of "\<lparr>type = ''monthly'', time = Some ''23:59'', days = None, day = Some (Num 31), expression = None\<rparr>" "''23:59''" 31]
      generate_parse_roundtrip [of "\<lparr>type = ''weekly'', time = Some ''00:00'', days = Some [Num 5, Num 0, Num 5], day = None, expression = None\<rparr>" "''00:00''" _ "[Num 5, Num 0, Num 5]"]
      v w
    by simp
qed

text \<open>
  C3, as stated: a missing or unrecognized time defaults to \<open>00:00\<close>. The code defaults
  only a time that is absent or empty; the time \<open>abc\<close> is split and parsed as it is, the
  hour is \<open>NaN\<close> and the minute is \<open>undefined\<close>.
\<close>

theorem generateExpression_unrecognized_time_counterexample:
  "generateExpression
     \<lparr>type = ''daily'', time = Some ''abc'', days = None, day = None, expression = None\<rparr>
     = ''undefined NaN * * *''
   \<and> generateExpression
     \<lparr>type = ''daily'', time = Some ''abc'', days = None, day = None, expression = None\<rparr>
     \<noteq> ''0 0 * * *''"
proof -
  have "generateExpression
     \<lparr>type = ''daily'', time = Some ''abc'', days = None, day = None, expression = None\<rparr>
     = ''undefined NaN * * *''"
    by code_simp
  then show ?thesis by simp
qed

text \<open>
  C3, amended: \<open>generateExpression\<close> is total and reports no error. A missing time (absent
  or the empty string) defaults to \<open>00:00\<close>, hour 0 and minute 0; a missing \<open>day\<close>
  defaults to 1; a missing \<open>days\<close> is rendered as an empty day-of-week field; a Custom
  configuration with no \<open>expression\<close> gives \<open>0 0 * * *\<close>; and an unrecognized \<open>type\<close>
  gives \<open>0 0 * * *\<close>.
\<close>

theorem generateExpression_defaults:
  "(time c = None \<or> time c = Some [] \<longrightarrow>
      time_parts c = [Num 0, Num 0]
      \<and> generateExpression c = generateExpression (c\<lparr>time := Some ''00:00''\<rparr>))
   \<and> (type c = ''daily'' \<and> (time c = None \<or> time c = Some []) \<longrightarrow>
      generateExpression c = ''0 0 * * *'')
   \<and> (type c = ''monthly'' \<and> day c = None \<longrightarrow>
      generateExpression c
        = tmpl_num (elem_at (time_parts c) 1) @ '' '' @ tmpl_num (elem_at (time_parts c) 0)
            @ '' 1 * *'')
   \<and> (type c = ''weekly'' \<and> days c = None \<longrightarrow>
      generateExpression c
        = tmpl_num (elem_at (time_parts c) 1) @ '' '' @ tmpl_num (elem_at (time_parts c) 0)
            @ '' * * '')
   \<and> (type c = ''custom'' \<and> expression c = None \<longrightarrow> generateExpression c = ''0 0 * * *'')
   \<and> (type c \<noteq> ''daily'' \<and> type c \<noteq> ''weekly'' \<and> type c \<noteq> ''monthly''
        \<and> type c \<noteq> ''custom'' \<longrightarrow>
      generateExpression c = ''0 0 * * *'')"
proof -
  have p0: "map js_parseInt (js_split (CHR '':'') ''00:00'') = [Num 0, Num 0]"
    by code_simp
  have one: "js_toString (Num 1) = ''1''" "js_toString (Num 0) = ''0''"
    by code_simp+
  have tp: "time_parts c = [Num 0, Num 0]" if "time c = None \<or> time c = Some []"
    using that p0 by (auto simp add: time_parts_def js_or_str_def)
  have tp': "time_parts (c\<lparr>time := Some ''00:00''\<rparr>) = [Num 0, Num 0]"
    using p0 by (simp add: time_parts_def js_or_str_def)
  have a: "time c = None \<or> time c = Some [] \<longrightarrow>
      time_parts c = [Num 0, Num 0]
      \<and> generateExpression c = generateExpression (c\<lparr>time := Some ''00:00''\<rparr>)"
  proof
    assume m: "time c = None \<or> time c = Some []"
    have g: "generateExpression c = generateExpression (c\<lparr>time := Some ''00:00''\<rparr>)"
      unfolding generateExpression_def tp [OF m] tp' by (simp add: Let_def)
    from tp [OF m] g
    show "time_parts c = [Num 0, Num 0]
      \<and> generateExpression c = generateExpression (c\<lparr>time := Some ''00:00''\<rparr>)"
      by simp
  qed
  have a': "type c = ''daily'' \<and> (time c = None \<or> time c = Some []) \<longrightarrow>
      generateExpression c = ''0 0 * * *''"
  proof (intro impI, elim conjE)
    assume ty: "type c = ''daily''" and m: "time c = None \<or> time c = Some []"
    show "generateExpression c = ''0 0 * * *''"
      unfolding generateExpression_def tp [OF m]
      by (simp add: ty elem_at_def tmpl_num_def one)
  qed
  have b: "type c = ''monthly'' \<and> day c = None \<longrightarrow>
      generateExpression c
        = tmpl_num (elem_at (time_parts c) 1) @ '' '' @ tmpl_num (elem_at (time_parts c) 0)
            @ '' 1 * *''"
    by (simp add: generateExpression_def js_or_num_def one)
  have d: "type c = ''weekly'' \<and> days c = None \<longrightarrow>
      generateExpression c
        = tmpl_num (elem_at (time_parts c) 1) @ '' '' @ tmpl_num (elem_at (time_parts c) 0)
            @ '' * * ''"
    by (simp add: generateExpression_def js_or_array_def)
  have e: "type c = ''custom'' \<and> expression c = None \<longrightarrow> generateExpression c = ''0 0 * * *''"
    by (simp add: generateExpression_def js_or_str_def)
  have f: "type c \<noteq> ''daily'' \<and> type c \<noteq> ''weekly'' \<and> type c \<noteq> ''monthly''
        \<and> type c \<noteq> ''custom'' \<longrightarrow>
      generateExpression c = ''0 0 * * *''"
    by (simp add: generateExpression_def)
  show ?thesis
    by (intro conjI) (rule a a' b d e f)+
qed

theorem generateExpression_defaults_witness:
  "generateExpression \<lparr>type = ''daily'', time = None, days = None, day = None, expression = None\<rparr>
     = ''0 0 * * *''
   \<and> generateExpression \<lparr>type = ''monthly'', time = Some [], days = None, day = None, expression = None\<rparr>
     = ''0 0 1 * *''
   \<and> generateExpression \<lparr>type = ''weekly'', time = None, days = None, day = None, expression = None\<rparr>
     = ''0 0 * * ''
   \<and> generateExpression \<lparr>type = ''custom'', time = None, days = None, day = None, expression = None\<rparr>
     = ''0 0 * * *''
   \<and> generateExpression \<lparr>type = ''yearly'', time = Some ''09:30'', days = None, day = None, expression = None\<rparr>
     = ''0 0 * * *''"
proof -
  let ?d = "\<lparr>type = ''daily'', time = None, days = None, day = None, expression = None\<rparr>"
  let ?m = "\<lparr>type = ''monthly'', time = Some [], days = None, day = None, expression = None\<rparr>"
  let ?w = "\<lparr>type = ''weekly'', time = None, days = None, day = None, expression = None\<rparr>"
  let ?c = "\<lparr>type = ''custom'', time = None, days = None, day = None, expression = None\<rparr>"
  let ?y = "\<lparr>type = ''yearly'', time = Some ''09:30'', days = None, day = None, expression = None\<rparr>"
  have s0: "js_toString (Num 0) = ''0''"
    by code_simp
  have z: "tmpl_num (elem_at [Num 0, Num 0] 0) = ''0''"
    "tmpl_num (elem_at [Num 0, Num 0] (Suc 0)) = ''0''"
    by (simp_all add: elem_at_def tmpl_num_def s0)
  have a: "generateExpression ?d = ''0 0 * * *''"
    using generateExpression_defaults [of ?d, THEN conjunct2, THEN conjunct1] by simp
  have tm: "time_parts ?m = [Num 0, Num 0]"
    using generateExpression_defaults [of ?m, THEN conjunct1] by simp
  have tw: "time_parts ?w = [Num 0, Num 0]"
    using generateExpression_defaults [of ?w, THEN conjunct1] by simp
  have b: "generateExpression ?m = ''0 0 1 * *''"
    using generateExpression_defaults [of ?m, THEN conjunct2, THEN conjunct2, THEN conjunct1]
    by (simp add: tm z)
  have d: "generateExpression ?w = ''0 0 * * ''"
    using generateExpression_defaults
      [of ?w, THEN conjunct2, THEN conjunct2, THEN conjunct2, THEN conjunct1]
    by (simp add: tw z)
  have e: "generateExpression ?c = ''0 0 * * *''"
    using generateExpression_defaults
      [of ?c, THEN conjunct2, THEN conjunct2, THEN conjunct2, THEN conjunct2, THEN conjunct1]
    by simp
  have f: "generateExpression ?y = ''0 0 * * *''"
    using generateExpression_defaults
      [of ?y, THEN conjunct2, THEN conjunct2, THEN conjunct2, THEN conjunct2, THEN conjunct2]
    by simp
  from a b d e f show ?thesis by simp
qed

end
